theory Spec2Isabelle
  imports Complex_Main
begin

section \<open>The polling client (client_poll.py)\<close>

text \<open>
  Python floats are modelled as reals with exact arithmetic. Every temperature, threshold,
  timestamp and back-off delay that the scenario theorems below evaluate is a small
  integer, which a float represents exactly, and the general theorems about the alarm
  depend only on the order of the values compared, not on how a difference is rounded.
\<close>

subsection \<open>Constants\<close>

definition MAX_BACKOFF :: real where
  "MAX_BACKOFF = 30"

definition ADDR_DEVICE_ID :: nat where "ADDR_DEVICE_ID = 0"
definition ADDR_STATUS :: nat where "ADDR_STATUS = 1"
definition ADDR_POWER_W :: nat where "ADDR_POWER_W = 2"
definition ADDR_VOLT_x10 :: nat where "ADDR_VOLT_x10 = 3"
definition ADDR_CURR_x100 :: nat where "ADDR_CURR_x100 = 4"
definition ADDR_TEMP_x10 :: nat where "ADDR_TEMP_x10 = 5"
definition ADDR_SOC_x10 :: nat where "ADDR_SOC_x10 = 6"

subsection \<open>The alarm: class AlarmState\<close>

record AlarmState =
  hi :: real
  lo :: real
  raise_after :: real
  clear_after :: real
  high_since :: "real option"
  low_since :: "real option"
  active :: bool

text \<open>
  \<open>__init__\<close> stores its four arguments, sets both timers to \<open>None\<close> and
  \<open>active\<close> to \<open>False\<close>. It has no check and no \<open>raise\<close>, so it is a total
  function.
\<close>

definition AlarmState_init :: "real \<Rightarrow> real \<Rightarrow> real \<Rightarrow> real \<Rightarrow> AlarmState" where
  "AlarmState_init h l ra ca =
     \<lparr> hi = h, lo = l, raise_after = ra, clear_after = ca,
       high_since = None, low_since = None, active = False \<rparr>"

text \<open>\<open>AlarmState()\<close>, as \<open>main\<close> calls it: the default arguments.\<close>

definition AlarmState_default :: AlarmState where
  "AlarmState_default = AlarmState_init 60 58 5 3"

datatype event = Raised | Cleared

text \<open>
  \<open>update\<close> mutates the object and returns \<open>"raised"\<close>, \<open>"cleared"\<close> or
  \<open>None\<close>; the model returns the new state with the event.
\<close>

definition update :: "AlarmState \<Rightarrow> real \<Rightarrow> real \<Rightarrow> AlarmState \<times> event option" where
  "update s temp_c ts =
     (if active s then
        (if temp_c < lo s then
           (let s1 = (if low_since s = None then s\<lparr>low_since := Some ts\<rparr> else s) in
            if ts - the (low_since s1) \<ge> clear_after s1
            then (s1\<lparr>active := False, low_since := None\<rparr>, Some Cleared)
            else (s1, None))
         else (s\<lparr>low_since := None\<rparr>, None))
      else
        (if temp_c > hi s then
           (let s1 = (if high_since s = None then s\<lparr>high_since := Some ts\<rparr> else s) in
            if ts - the (high_since s1) \<ge> raise_after s1
            then (s1\<lparr>active := True, high_since := None\<rparr>, Some Raised)
            else (s1, None))
         else (s\<lparr>high_since := None\<rparr>, None)))"

text \<open>
  A run of the alarm: \<open>update\<close> called once per sample \<open>(temp_c, ts)\<close>, in order;
  the result is the final state and the value each call returned.
\<close>

fun feed :: "AlarmState \<Rightarrow> (real \<times> real) list \<Rightarrow> AlarmState \<times> event option list" where
  "feed s [] = (s, [])"
| "feed s (x # xs) =
     (let (s1, e) = update s (fst x) (snd x);
          (s2, es) = feed s1 xs
      in (s2, e # es))"

text \<open>
  The invariant of the two timers: while the alarm is active the high timer is not
  armed, and while it is inactive the low timer is not armed.
\<close>

definition alarm_inv :: "AlarmState \<Rightarrow> bool" where
  "alarm_inv s =
     ((active s \<longrightarrow> high_since s = None) \<and> (\<not> active s \<longrightarrow> low_since s = None))"

subsection \<open>Decoding the register block (main, lines 101 to 107)\<close>

text \<open>
  What can go wrong in one transaction: \<open>main\<close> raises \<open>ModbusIOException\<close>
  when the connection fails or the response is an error, and indexing the list of
  registers beyond its end raises \<open>IndexError\<close>.
\<close>

datatype error = ModbusIOException | IndexError

text \<open>\<open>regs[i]\<close> for a constant index \<open>i \<ge> 0\<close> on a Python list.\<close>

definition reg_at :: "int list \<Rightarrow> nat \<Rightarrow> error + int" where
  "reg_at regs i = (if i < length regs then Inr (regs ! i) else Inl IndexError)"

definition bind_err :: "error + 'a \<Rightarrow> ('a \<Rightarrow> error + 'b) \<Rightarrow> error + 'b" where
  "bind_err m f = (case m of Inl e \<Rightarrow> Inl e | Inr x \<Rightarrow> f x)"

text \<open>The sample \<open>main\<close> builds from the registers (the payload of quality good).\<close>

record TelemetrySample =
  device_id :: int
  power_w :: int
  voltage_v :: real
  current_a :: real
  temp_c :: real
  soc_pct :: real

text \<open>
  The six reads happen in the order of the source; the first one out of range raises.
  There is no other check: no length test, no range test on a value.
\<close>

definition decode :: "int list \<Rightarrow> error + TelemetrySample" where
  "decode regs =
     bind_err (reg_at regs ADDR_DEVICE_ID) (\<lambda>d.
     bind_err (reg_at regs ADDR_POWER_W) (\<lambda>p.
     bind_err (reg_at regs ADDR_VOLT_x10) (\<lambda>v.
     bind_err (reg_at regs ADDR_CURR_x100) (\<lambda>c.
     bind_err (reg_at regs ADDR_TEMP_x10) (\<lambda>t.
     bind_err (reg_at regs ADDR_SOC_x10) (\<lambda>q.
       Inr \<lparr> device_id = d, power_w = p,
             voltage_v = real_of_int v / 10,
             current_a = real_of_int c / 100,
             temp_c = real_of_int t / 10,
             soc_pct = real_of_int q / 10 \<rparr>))))))"

subsection \<open>One cycle of the polling loop (main, lines 91 to 157)\<close>

text \<open>
  What the transport gives back in one cycle: the connection fails, the response is an
  error, or the response carries a list of registers.
\<close>

datatype response = ConnectFailed | ErrorResponse | Registers "int list"

definition transaction :: "response \<Rightarrow> error + TelemetrySample" where
  "transaction r =
     (case r of
        ConnectFailed \<Rightarrow> Inl ModbusIOException
      | ErrorResponse \<Rightarrow> Inl ModbusIOException
      | Registers regs \<Rightarrow> decode regs)"

datatype message =
  Telemetry TelemetrySample
| Degraded error
| Alarm event

record poller =
  backoff :: real
  alarm :: AlarmState

definition poller_init :: poller where
  "poller_init = \<lparr> backoff = 0, alarm = AlarmState_default \<rparr>"

text \<open>
  The body of the \<open>while\<close> loop: the \<open>try\<close> block, and the \<open>except\<close> block
  that any exception of the transaction reaches. \<open>now\<close> is the clock the alarm is
  given. The result is the new state and the messages published.
\<close>

definition cycle :: "response \<Rightarrow> real \<Rightarrow> poller \<Rightarrow> poller \<times> message list" where
  "cycle r now p =
     (case transaction r of
        Inr smp \<Rightarrow>
          (let (a, evt) = update (alarm p) (temp_c smp) now
           in (p\<lparr>alarm := a, backoff := 0\<rparr>,
               Telemetry smp # (case evt of None \<Rightarrow> [] | Some e \<Rightarrow> [Alarm e])))
      | Inl e \<Rightarrow>
          (p\<lparr>backoff := (if backoff p = 0 then 1 else min MAX_BACKOFF (backoff p * 2))\<rparr>,
           [Degraded e]))"

text \<open>The loop over the first cycles of a run, one response and one clock value each.\<close>

fun cycles :: "(response \<times> real) list \<Rightarrow> poller \<Rightarrow> poller" where
  "cycles [] p = p"
| "cycles (x # xs) p = cycles xs (fst (cycle (fst x) (snd x) p))"

section \<open>The simulator (server_sim.py)\<close>

text \<open>
  The register block is a list of Python integers. \<open>make_context\<close> is the only place
  that creates one, with \<open>HR_LEN\<close> registers, and the updater reads and writes the
  addresses 1 to 7 only, so every access of the updater is in range; \<open>get_reg\<close> and
  \<open>set_reg\<close> are the read and the write of one register (the lock they take has no
  part in a sequential run of the updater).
\<close>

definition HR_LEN :: nat where
  "HR_LEN = 16"

definition get_reg :: "int list \<Rightarrow> nat \<Rightarrow> int" where
  "get_reg block addr = block ! addr"

definition set_reg :: "int list \<Rightarrow> nat \<Rightarrow> int \<Rightarrow> int list" where
  "set_reg block addr v = block[addr := v]"

text \<open>The block that \<open>make_context\<close> returns.\<close>

definition make_context :: "int list" where
  "make_context =
     (replicate HR_LEN 0)
       [0 := 1001, 1 := 1, 2 := 1200, 3 := 2300, 4 := 500, 5 := 550, 6 := 700, 7 := 1200]"

text \<open>\<open>int(x)\<close> on a float: truncation towards zero.\<close>

definition py_int :: "real \<Rightarrow> int" where
  "py_int x = (if 0 \<le> x then \<lfloor>x\<rfloor> else \<lceil>x\<rceil>)"

text \<open>
  The random numbers one tick may draw: \<open>random.randint(-5, 5)\<close> for the power,
  \<open>random.randint(-15, 15)\<close> for the voltage, \<open>random.uniform(-0.5, 0.5)\<close> for the
  temperature target and \<open>random.uniform(-0.2, 0.2)\<close> for the state of charge.
\<close>

record draws =
  randint_pw :: int
  randint_v :: int
  uniform_temp :: real
  uniform_soc :: real

definition draws_ok :: "draws \<Rightarrow> bool" where
  "draws_ok d =
     (- 5 \<le> randint_pw d \<and> randint_pw d \<le> 5 \<and>
      - 15 \<le> randint_v d \<and> randint_v d \<le> 15 \<and>
      - 0.5 \<le> uniform_temp d \<and> uniform_temp d \<le> 0.5 \<and>
      - 0.2 \<le> uniform_soc d \<and> uniform_soc d \<le> 0.2)"

text \<open>The draws of a tick in which every random number is 0.\<close>

definition zero_draws :: draws where
  "zero_draws = \<lparr> randint_pw = 0, randint_v = 0, uniform_temp = 0, uniform_soc = 0 \<rparr>"

text \<open>
  One pass through the \<open>try\<close> block of \<open>updater\<close>, on the pair of the local clock
  \<open>t\<close> and the block. A name bound twice is the source's reassignment. Floats are
  reals here; the one float product on the way to the power register,
  \<open>int(delta * 0.3)\<close>, has an integer \<open>delta\<close> between \<open>-50\<close> and \<open>50\<close>, and
  there the float product truncates to the same integer as the exact one.
\<close>

definition updater_step :: "real \<Rightarrow> draws \<Rightarrow> real \<times> int list \<Rightarrow> real \<times> int list" where
  "updater_step interval d st =
     (let t = fst st; block = snd st;
          sp = get_reg block 7;
          pw = get_reg block 2;
          delta = max (- 50) (min 50 (sp - pw));
          pw = (if \<bar>delta\<bar> > 10 then pw + py_int (real_of_int delta * 0.3)
                else pw + randint_pw d);
          pw = max 0 (min 5000 pw);
          block = set_reg block 2 pw;
          v = 2300 + randint_v d;
          block = set_reg block 3 v;
          current_a = real_of_int pw / max 1 (real_of_int v / 10);
          ia = py_int (max 0 (min 2000 (current_a * 100)));
          block = set_reg block 4 ia;
          cycle = \<lfloor>t / 10\<rfloor> mod 2;
          temp_target = (if cycle = 0 then 65 + uniform_temp d else 40 + uniform_temp d);
          temp = real_of_int (get_reg block 5) / 10;
          temp = temp * 0.8 + temp_target * 0.2;
          block = set_reg block 5 (py_int (temp * 10));
          soc = real_of_int (get_reg block 6) / 10;
          soc = soc + uniform_soc d;
          soc = min 100 (max 0 soc);
          block = set_reg block 6 (py_int (soc * 10));
          status = 1;
          block = set_reg block 1 status
      in (t + interval, block))"

text \<open>
  The \<open>while True\<close> loop never returns; its first ticks are the recursion over the
  list of the draws, one element per tick.
\<close>

fun updater_loop :: "real \<Rightarrow> draws list \<Rightarrow> real \<times> int list \<Rightarrow> real \<times> int list" where
  "updater_loop interval [] st = st"
| "updater_loop interval (d # ds) st = updater_loop interval ds (updater_step interval d st)"

text \<open>\<open>updater(block, interval)\<close> starts its clock at \<open>t = 0.0\<close>.\<close>

definition updater :: "int list \<Rightarrow> real \<Rightarrow> draws list \<Rightarrow> int list" where
  "updater block interval ds = snd (updater_loop interval ds (0, block))"

text \<open>The bounds on the power, the state of charge and the current registers.\<close>

definition in_bounds :: "int list \<Rightarrow> bool" where
  "in_bounds block =
     (0 \<le> get_reg block 2 \<and> get_reg block 2 \<le> 5000 \<and>
      0 \<le> real_of_int (get_reg block 6) / 10 \<and> real_of_int (get_reg block 6) / 10 \<le> 100 \<and>
      0 \<le> real_of_int (get_reg block 4) / 100)"

section \<open>Properties of the polling client\<close>

subsection \<open>Decoding\<close>

lemmas addr_defs = ADDR_DEVICE_ID_def ADDR_POWER_W_def ADDR_VOLT_x10_def ADDR_CURR_x100_def
  ADDR_TEMP_x10_def ADDR_SOC_x10_def

lemma decode_short: "length regs < 7 \<Longrightarrow> decode regs = Inl IndexError"
  by (auto simp add: decode_def bind_err_def reg_at_def addr_defs)

lemma decode_long:
  "7 \<le> length regs \<Longrightarrow>
   decode regs = Inr \<lparr> device_id = regs ! 0, power_w = regs ! 2,
             voltage_v = real_of_int (regs ! 3) / 10,
             current_a = real_of_int (regs ! 4) / 100,
             temp_c = real_of_int (regs ! 5) / 10,
             soc_pct = real_of_int (regs ! 6) / 10 \<rparr>"
  by (auto simp add: decode_def bind_err_def reg_at_def addr_defs)

text \<open>
  C1, as stated, fails: a list of seven registers is shorter than ten, and decoding it
  raises nothing and returns a sample. The highest index \<open>main\<close> reads is
  \<open>ADDR_SOC_x10 = 6\<close>, and no length is tested anywhere.
\<close>

theorem decode_accepts_seven_registers:
  "length [1001, 1, 1200, 2300, 500, 550, 700 :: int] < 10 \<and>
   decode [1001, 1, 1200, 2300, 500, 550, 700] =
     Inr \<lparr> device_id = 1001, power_w = 1200, voltage_v = 230, current_a = 5,
           temp_c = 55, soc_pct = 70 \<rparr>"
  by (simp add: decode_def bind_err_def reg_at_def addr_defs)

text \<open>
  C1, amended: decoding fails, with \<open>IndexError\<close> and no sample, exactly for the
  lists of fewer than seven registers; every list of seven or more registers (so every
  list of ten or more) decodes to a sample whose fields are the registers at the offsets
  0, 2, 3, 4, 5 and 6, scaled and otherwise unchecked.
\<close>

theorem decode_fails_iff_fewer_than_seven:
  "(length regs < 7 \<longrightarrow> decode regs = Inl IndexError) \<and>
   (7 \<le> length regs \<longrightarrow>
      decode regs = Inr \<lparr> device_id = regs ! 0, power_w = regs ! 2,
             voltage_v = real_of_int (regs ! 3) / 10,
             current_a = real_of_int (regs ! 4) / 100,
             temp_c = real_of_int (regs ! 5) / 10,
             soc_pct = real_of_int (regs ! 6) / 10 \<rparr>)"
  using decode_short decode_long by blast

text \<open>C1, amended, at a list of six registers and at the block of ten of the spec.\<close>

theorem decode_fails_iff_fewer_than_seven_witness:
  "decode [1001, 1, 1200, 2300, 500, 550] = Inl IndexError \<and>
   decode [1001, 1, 1200, 2300, 500, 550, 700, 1200, 0, 0] =
     Inr \<lparr> device_id = 1001, power_w = 1200, voltage_v = 230, current_a = 5,
           temp_c = 55, soc_pct = 70 \<rparr>"
  using decode_fails_iff_fewer_than_seven [of "[1001, 1, 1200, 2300, 500, 550]"]
    decode_fails_iff_fewer_than_seven [of "[1001, 1, 1200, 2300, 500, 550, 700, 1200, 0, 0]"]
  by simp

subsection \<open>Back-off\<close>

lemma cycles_snoc: "cycles (xs @ [x]) p = fst (cycle (fst x) (snd x) (cycles xs p))"
  by (induction xs arbitrary: p) simp_all

lemma cycle_fail:
  "isl (transaction r) \<Longrightarrow>
   backoff (fst (cycle r now p)) = (if backoff p = 0 then 1 else min MAX_BACKOFF (backoff p * 2))"
  by (cases "transaction r") (simp_all add: cycle_def)

lemma cycle_ok: "\<not> isl (transaction r) \<Longrightarrow> backoff (fst (cycle r now p)) = 0"
  by (cases "transaction r") (simp_all add: cycle_def split_def Let_def)

lemma double_cap: "min 30 (min 30 (2 ^ k) * 2) = min (30::real) (2 ^ Suc k)"
proof (cases "(2::real) ^ k \<le> 30")
  case True
  then show ?thesis by simp
next
  case False
  then show ?thesis by simp
qed

lemma failures_backoff:
  "(\<forall>x \<in> set xs. isl (transaction (fst x))) \<Longrightarrow>
   backoff (cycles xs poller_init) = (if xs = [] then 0 else min 30 (2 ^ (length xs - 1)))"
proof (induction xs rule: rev_induct)
  case Nil
  show ?case by (simp add: poller_init_def)
next
  case (snoc x xs)
  then have f: "isl (transaction (fst x))" and
    ih: "backoff (cycles xs poller_init) = (if xs = [] then 0 else min 30 (2 ^ (length xs - 1)))"
    by simp_all
  show ?case
  proof (cases xs)
    case Nil
    then show ?thesis using cycle_fail [OF f] ih by (simp add: cycles_snoc)
  next
    case (Cons y ys)
    have pos: "min (30::real) (2 ^ length ys) \<noteq> 0"
      by (simp add: min_def)
    show ?thesis using cycle_fail [OF f, of "snd x" "cycles xs poller_init"] ih Cons pos
      by (simp add: cycles_snoc MAX_BACKOFF_def double_cap)
  qed
qed

lemma thirty_le_power: "5 \<le> k \<Longrightarrow> (30::real) \<le> 2 ^ k"
proof -
  assume "5 \<le> k"
  then have "(2::real) ^ 5 \<le> 2 ^ k" by (intro power_increasing) simp_all
  then show ?thesis by simp
qed

lemma first_seven_failures:
  "map (\<lambda>n. backoff (cycles (replicate n (ConnectFailed, now)) poller_init)) [1, 2, 3, 4, 5, 6, 7]
     = [1, 2, 4, 8, 16, 30, 30]"
  by (simp add: cycle_def transaction_def MAX_BACKOFF_def poller_init_def eval_nat_numeral)

text \<open>
  C2: a cycle whose transaction raises sets the delay to 1 if it was 0 and to
  \<open>min MAX_BACKOFF (delay * 2)\<close> otherwise, with \<open>MAX_BACKOFF = 30\<close>; a cycle whose
  transaction succeeds sets it to 0, whatever it was. From the initial delay 0 the first
  seven failed cycles in a row give 1, 2, 4, 8, 16, 30, 30; after \<open>n > 0\<close> failed cycles
  in a row the delay is \<open>min 30 (2 ^ (n - 1))\<close>, which is 30 from the sixth on.
\<close>

theorem backoff_doubles_to_cap_and_resets:
  "(isl (transaction r) \<longrightarrow>
      backoff (fst (cycle r now p)) =
        (if backoff p = 0 then 1 else min MAX_BACKOFF (backoff p * 2))) \<and>
   (\<not> isl (transaction r) \<longrightarrow> backoff (fst (cycle r now p)) = 0) \<and>
   MAX_BACKOFF = 30 \<and>
   map (\<lambda>n. backoff (cycles (replicate n (ConnectFailed, now)) poller_init)) [1, 2, 3, 4, 5, 6, 7]
     = [1, 2, 4, 8, 16, 30, 30] \<and>
   ((\<forall>x \<in> set xs. isl (transaction (fst x))) \<longrightarrow>
      backoff (cycles xs poller_init) = (if xs = [] then 0 else min 30 (2 ^ (length xs - 1))) \<and>
      (6 \<le> length xs \<longrightarrow> backoff (cycles xs poller_init) = 30))"
proof -
  have "backoff (cycles xs poller_init) = 30"
    if a: "\<forall>x \<in> set xs. isl (transaction (fst x))" and b: "6 \<le> length xs"
  proof -
    from b have "5 \<le> length xs - 1" by simp
    then have "(30::real) \<le> 2 ^ (length xs - 1)" by (rule thirty_le_power)
    moreover from b have "xs \<noteq> []" by auto
    ultimately show ?thesis using failures_backoff [OF a] by simp
  qed
  then show ?thesis
    using cycle_fail cycle_ok failures_backoff first_seven_failures
    by (simp add: MAX_BACKOFF_def)
qed

text \<open>
  C2 at a failed connection with the delay at 16, at a good response of ten registers
  with the delay at 16, and at seven failed connections in a row from the start.
\<close>

theorem backoff_doubles_to_cap_and_resets_witness:
  "backoff (fst (cycle ConnectFailed 0 (poller_init\<lparr>backoff := 16\<rparr>))) = 30 \<and>
   backoff (fst (cycle (Registers [1001, 1, 1200, 2300, 500, 550, 700, 1200, 0, 0]) 0
                  (poller_init\<lparr>backoff := 16\<rparr>))) = 0 \<and>
   backoff (cycles (replicate 7 (ConnectFailed, 0)) poller_init) = 30"
  using backoff_doubles_to_cap_and_resets
      [of ConnectFailed 0 "poller_init\<lparr>backoff := 16\<rparr>" "replicate 7 (ConnectFailed, 0)"]
    backoff_doubles_to_cap_and_resets
      [of "Registers [1001, 1, 1200, 2300, 500, 550, 700, 1200, 0, 0]" 0
          "poller_init\<lparr>backoff := 16\<rparr>" "[]"]
  by (simp add: transaction_def decode_def bind_err_def reg_at_def addr_defs)

subsection \<open>The alarm\<close>

lemma feed_append_fst: "fst (feed s (xs @ ys)) = fst (feed (fst (feed s xs)) ys)"
  by (induction xs arbitrary: s) (simp_all add: split_def Let_def)

lemma feed_append_snd:
  "snd (feed s (xs @ ys)) = snd (feed s xs) @ snd (feed (fst (feed s xs)) ys)"
  by (induction xs arbitrary: s) (simp_all add: split_def Let_def)

lemma feed_snoc_fst:
  "fst (feed s (xs @ [x])) = fst (update (fst (feed s xs)) (fst x) (snd x))"
  by (simp add: feed_append_fst split_def Let_def)

lemma feed_snoc_snd:
  "snd (feed s (xs @ [x])) = snd (feed s xs) @ [snd (update (fst (feed s xs)) (fst x) (snd x))]"
  by (simp add: feed_append_snd split_def Let_def)

text \<open>The state after the first \<open>n\<close> samples of a constant 61 degrees, one per second.\<close>

lemma hot_state:
  "fst (feed AlarmState_default (map (\<lambda>k. (61, real k)) [0..<n])) =
     (if n = 0 then AlarmState_default
      else if n \<le> 5 then AlarmState_default\<lparr>high_since := Some 0\<rparr>
      else AlarmState_default\<lparr>active := True\<rparr>)"
proof (induction n)
  case 0
  show ?case by simp
next
  case (Suc n)
  have "fst (feed AlarmState_default (map (\<lambda>k. (61, real k)) [0..<Suc n])) =
        fst (update (fst (feed AlarmState_default (map (\<lambda>k. (61, real k)) [0..<n]))) 61 (real n))"
    by (simp add: feed_snoc_fst)
  also have "\<dots> = (if Suc n = 0 then AlarmState_default
      else if Suc n \<le> 5 then AlarmState_default\<lparr>high_since := Some 0\<rparr>
      else AlarmState_default\<lparr>active := True\<rparr>)"
    unfolding Suc.IH
    by (simp add: update_def AlarmState_default_def AlarmState_init_def Let_def)
  finally show ?case .
qed

lemma hot_events:
  "snd (feed AlarmState_default (map (\<lambda>k. (61, real k)) [0..<n])) =
     map (\<lambda>k. if k = 5 then Some Raised else None) [0..<n]"
proof (induction n)
  case 0
  show ?case by simp
next
  case (Suc n)
  have e: "snd (update (fst (feed AlarmState_default (map (\<lambda>k. (61, real k)) [0..<n]))) 61 (real n))
      = (if n = 5 then Some Raised else None)"
    unfolding hot_state
    by (simp add: update_def AlarmState_default_def AlarmState_init_def Let_def)
  have "snd (feed AlarmState_default (map (\<lambda>k. (61, real k)) [0..<Suc n])) =
        snd (feed AlarmState_default (map (\<lambda>k. (61, real k)) [0..<n])) @
        [snd (update (fst (feed AlarmState_default (map (\<lambda>k. (61, real k)) [0..<n]))) 61 (real n))]"
    by (simp add: feed_snoc_snd)
  then show ?case
    unfolding e Suc.IH by simp
qed

text \<open>The same with the one sample of 59 degrees at the timestamp 4.\<close>

lemma dip_state:
  "fst (feed AlarmState_default (map (\<lambda>k. (if k = 4 then 59 else 61, real k)) [0..<n])) =
     (if n = 0 \<or> n = 5 then AlarmState_default
      else if n \<le> 4 then AlarmState_default\<lparr>high_since := Some 0\<rparr>
      else if n \<le> 10 then AlarmState_default\<lparr>high_since := Some 5\<rparr>
      else AlarmState_default\<lparr>active := True\<rparr>)"
proof (induction n)
  case 0
  show ?case by simp
next
  case (Suc n)
  have "fst (feed AlarmState_default (map (\<lambda>k. (if k = 4 then 59 else 61, real k)) [0..<Suc n])) =
        fst (update (fst (feed AlarmState_default
           (map (\<lambda>k. (if k = 4 then 59 else 61, real k)) [0..<n])))
           (if n = 4 then 59 else 61) (real n))"
    by (simp add: feed_snoc_fst)
  also have "\<dots> = (if Suc n = 0 \<or> Suc n = 5 then AlarmState_default
      else if Suc n \<le> 4 then AlarmState_default\<lparr>high_since := Some 0\<rparr>
      else if Suc n \<le> 10 then AlarmState_default\<lparr>high_since := Some 5\<rparr>
      else AlarmState_default\<lparr>active := True\<rparr>)"
    unfolding Suc.IH
    by (simp add: update_def AlarmState_default_def AlarmState_init_def Let_def)
  finally show ?case .
qed

lemma dip_events:
  "snd (feed AlarmState_default (map (\<lambda>k. (if k = 4 then 59 else 61, real k)) [0..<n])) =
     map (\<lambda>k. if k = 10 then Some Raised else None) [0..<n]"
proof (induction n)
  case 0
  show ?case by simp
next
  case (Suc n)
  have e: "snd (update (fst (feed AlarmState_default
            (map (\<lambda>k. (if k = 4 then 59 else 61, real k)) [0..<n])))
          (if n = 4 then 59 else 61) (real n))
      = (if n = 10 then Some Raised else None)"
    unfolding dip_state
    by (simp add: update_def AlarmState_default_def AlarmState_init_def Let_def)
  have "snd (feed AlarmState_default (map (\<lambda>k. (if k = 4 then 59 else 61, real k)) [0..<Suc n])) =
        snd (feed AlarmState_default (map (\<lambda>k. (if k = 4 then 59 else 61, real k)) [0..<n])) @
        [snd (update (fst (feed AlarmState_default
            (map (\<lambda>k. (if k = 4 then 59 else 61, real k)) [0..<n])))
          (if n = 4 then 59 else 61) (real n))]"
    by (simp add: feed_snoc_snd)
  then show ?case
    unfolding e Suc.IH by simp
qed

lemma active_no_raise: "active s \<Longrightarrow> snd (update s x ts) \<noteq> Some Raised"
  by (simp add: update_def Let_def)

lemma update_inv: "alarm_inv s \<Longrightarrow> alarm_inv (fst (update s x ts))"
  by (simp add: alarm_inv_def update_def Let_def)

lemma feed_inv: "alarm_inv s \<Longrightarrow> alarm_inv (fst (feed s xs))"
  by (induction xs arbitrary: s) (simp_all add: split_def Let_def update_inv)

text \<open>
  C3: with \<open>hi = 60\<close>, \<open>lo = 58\<close>, \<open>raise_after = 5\<close> and \<open>clear_after = 3\<close>, the
  calls of \<open>update\<close> with 61 degrees at the timestamps \<open>0, 1, \<dots>, n - 1\<close> return
  \<open>None\<close> at the timestamps 0 to 4, \<open>Raised\<close> at the timestamp 5 and \<open>None\<close> at every
  later one, for every \<open>n\<close>; from the sixth call on the alarm is active; and in no active
  state does \<open>update\<close> return \<open>Raised\<close>, whatever the sample.
\<close>

theorem constant_61_raises_once_at_5:
  "snd (feed (AlarmState_init 60 58 5 3) (map (\<lambda>k. (61, real k)) [0..<n])) =
     map (\<lambda>k. if k = 5 then Some Raised else None) [0..<n] \<and>
   (6 \<le> n \<longrightarrow>
      active (fst (feed (AlarmState_init 60 58 5 3) (map (\<lambda>k. (61, real k)) [0..<n])))) \<and>
   (active s \<longrightarrow> snd (update s x ts) \<noteq> Some Raised)"
  using hot_events [of n] hot_state [of n] active_no_raise [of s x ts]
  by (simp add: AlarmState_default_def)

text \<open>C3 at the first eight samples, and at a ninth call in the active state.\<close>

theorem constant_61_raises_once_at_5_witness:
  "snd (feed (AlarmState_init 60 58 5 3) (map (\<lambda>k. (61, real k)) [0..<8])) =
     [None, None, None, None, None, Some Raised, None, None] \<and>
   (6::nat) \<le> 8 \<and>
   active (fst (feed (AlarmState_init 60 58 5 3) (map (\<lambda>k. (61, real k)) [0..<8]))) \<and>
   active ((AlarmState_init 60 58 5 3)\<lparr>active := True\<rparr>) \<and>
   snd (update ((AlarmState_init 60 58 5 3)\<lparr>active := True\<rparr>) 61 8) \<noteq> Some Raised"
  using constant_61_raises_once_at_5 [of 8 "(AlarmState_init 60 58 5 3)\<lparr>active := True\<rparr>" 61 8]
  by (simp add: upt_rec)

text \<open>
  C4: with the same parameters, 61 degrees at the timestamps 0 to 3, 59 degrees at the
  timestamp 4 and 61 degrees from the timestamp 5 on, the first \<open>n\<close> calls return
  \<open>Raised\<close> at the timestamp 10 and \<open>None\<close> at every other one (so not at 9), for every
  \<open>n\<close>. The high timer holds the timestamp 0 after the first four calls, is \<open>None\<close>
  after the call at the timestamp 4, and holds the timestamp 5 after the next call: it was
  discarded and started again, not paused.
\<close>

theorem debounce_restarts_after_drop:
  "snd (feed (AlarmState_init 60 58 5 3)
      (map (\<lambda>k. (if k = 4 then 59 else 61, real k)) [0..<n])) =
     map (\<lambda>k. if k = 10 then Some Raised else None) [0..<n] \<and>
   high_since (fst (feed (AlarmState_init 60 58 5 3)
       (map (\<lambda>k. (if k = 4 then 59 else 61, real k)) [0..<4]))) = Some 0 \<and>
   high_since (fst (feed (AlarmState_init 60 58 5 3)
       (map (\<lambda>k. (if k = 4 then 59 else 61, real k)) [0..<5]))) = None \<and>
   high_since (fst (feed (AlarmState_init 60 58 5 3)
       (map (\<lambda>k. (if k = 4 then 59 else 61, real k)) [0..<6]))) = Some 5"
  using dip_events [of n] dip_state [of 4] dip_state [of 5] dip_state [of 6]
  by (simp add: AlarmState_default_def AlarmState_init_def)

text \<open>C4 at the first twelve samples.\<close>

theorem debounce_restarts_after_drop_witness:
  "snd (feed (AlarmState_init 60 58 5 3)
      (map (\<lambda>k. (if k = 4 then 59 else 61, real k)) [0..<12])) =
     [None, None, None, None, None, None, None, None, None, None, Some Raised, None]"
  using debounce_restarts_after_drop [of 12]
  by (simp add: upt_rec)

text \<open>
  C5: after the six calls with 61 degrees at the timestamps 0 to 5, the last of which
  returns \<open>Raised\<close>, the four calls with 57 degrees at the timestamps 5, 6, 7 and 8
  return \<open>None\<close>, \<open>None\<close>, \<open>None\<close> and \<open>Cleared\<close>: one \<open>Cleared\<close>, at the
  timestamp 8, and the alarm is back in its initial state.
\<close>

theorem clears_at_8_after_three_seconds_below_lo:
  "snd (feed (AlarmState_init 60 58 5 3) (map (\<lambda>k. (61, real k)) [0..<6])) =
     [None, None, None, None, None, Some Raised] \<and>
   feed (fst (feed (AlarmState_init 60 58 5 3) (map (\<lambda>k. (61, real k)) [0..<6])))
     [(57, 5), (57, 6), (57, 7), (57, 8)] =
     (AlarmState_init 60 58 5 3, [None, None, None, Some Cleared])"
proof -
  have a: "AlarmState_init 60 58 5 3 = AlarmState_default"
    by (simp add: AlarmState_default_def)
  have "snd (feed AlarmState_default (map (\<lambda>k. (61, real k)) [0..<6])) =
     [None, None, None, None, None, Some Raised]"
    unfolding hot_events by (simp add: upt_rec)
  moreover have "feed (fst (feed AlarmState_default (map (\<lambda>k. (61, real k)) [0..<6])))
     [(57, 5), (57, 6), (57, 7), (57, 8)] = (AlarmState_default, [None, None, None, Some Cleared])"
    unfolding hot_state
    by (simp add: update_def AlarmState_default_def AlarmState_init_def Let_def)
  ultimately show ?thesis unfolding a by simp
qed

text \<open>
  C6: in every state and at every timestamp, a call of \<open>update\<close> with the temperature
  equal to \<open>hi\<close> never returns \<open>Raised\<close>, and leaves the high timer \<open>None\<close> when the
  alarm is inactive and untouched when it is active (where the source does not read or
  write it); a call with the temperature equal to \<open>lo\<close> never returns \<open>Cleared\<close>, and
  leaves the low timer \<open>None\<close> when the alarm is active and untouched when it is
  inactive. In every state that satisfies \<open>alarm_inv\<close>, which is every state a run
  reaches, the timer in question is \<open>None\<close> after the call.
\<close>

theorem sample_on_threshold_arms_no_timer:
  "high_since (fst (update s (hi s) ts)) = (if active s then high_since s else None) \<and>
   snd (update s (hi s) ts) \<noteq> Some Raised \<and>
   low_since (fst (update s (lo s) ts)) = (if active s then None else low_since s) \<and>
   snd (update s (lo s) ts) \<noteq> Some Cleared \<and>
   (alarm_inv s \<longrightarrow> high_since (fst (update s (hi s) ts)) = None \<and>
                   low_since (fst (update s (lo s) ts)) = None)"
  by (simp add: update_def Let_def alarm_inv_def)

text \<open>
  C6 at an inactive alarm whose high timer runs since the timestamp 2 and that is given
  60 degrees at the timestamp 4, and at an active alarm whose low timer runs since 2 and
  that is given 58 degrees at 4: each call discards the timer and returns \<open>None\<close>.
\<close>

theorem sample_on_threshold_arms_no_timer_witness:
  "alarm_inv ((AlarmState_init 60 58 5 3)\<lparr>high_since := Some 2\<rparr>) \<and>
   update ((AlarmState_init 60 58 5 3)\<lparr>high_since := Some 2\<rparr>) 60 4 =
     (AlarmState_init 60 58 5 3, None) \<and>
   alarm_inv ((AlarmState_init 60 58 5 3)\<lparr>active := True, low_since := Some 2\<rparr>) \<and>
   update ((AlarmState_init 60 58 5 3)\<lparr>active := True, low_since := Some 2\<rparr>) 58 4 =
     ((AlarmState_init 60 58 5 3)\<lparr>active := True\<rparr>, None)"
  using sample_on_threshold_arms_no_timer
      [of "(AlarmState_init 60 58 5 3)\<lparr>high_since := Some 2\<rparr>" 4]
    sample_on_threshold_arms_no_timer
      [of "(AlarmState_init 60 58 5 3)\<lparr>active := True, low_since := Some 2\<rparr>" 4]
  by (simp add: update_def Let_def alarm_inv_def AlarmState_init_def)

text \<open>
  C7, as stated, fails: \<open>__init__\<close> with \<open>hi = 58\<close> and \<open>lo = 60\<close> returns a
  state, and the state is usable: fed 59 degrees at the timestamps 0, 5, 6 and 9 it
  raises the alarm and clears it.
\<close>

theorem init_accepts_lo_above_hi:
  "(60::real) \<ge> 58 \<and>
   AlarmState_init 58 60 5 3 =
     \<lparr> hi = 58, lo = 60, raise_after = 5, clear_after = 3,
       high_since = None, low_since = None, active = False \<rparr> \<and>
   snd (feed (AlarmState_init 58 60 5 3) [(59, 0), (59, 5), (59, 6), (59, 9)]) =
     [None, Some Raised, None, Some Cleared]"
  by (simp add: AlarmState_init_def update_def Let_def)

text \<open>
  C7, amended: construction checks nothing. For every \<open>hi\<close>, \<open>lo\<close>, \<open>raise_after\<close>
  and \<open>clear_after\<close>, also with \<open>lo \<ge> hi\<close>, it returns the state that holds these
  four values, with both timers \<open>None\<close> and \<open>active\<close> false, and \<open>update\<close> runs on
  that state.
\<close>

theorem init_never_rejects:
  "AlarmState_init h l ra ca =
     \<lparr> hi = h, lo = l, raise_after = ra, clear_after = ca,
       high_since = None, low_since = None, active = False \<rparr> \<and>
   (\<exists>s e. update (AlarmState_init h l ra ca) x ts = (s, e))"
  by (simp add: AlarmState_init_def)

text \<open>
  C10: the freshly constructed state satisfies \<open>alarm_inv\<close> (active implies no high
  timer, inactive implies no low timer), every call of \<open>update\<close> preserves it, so every
  state a run reaches from a fresh state satisfies it, and at most one of the two timers
  is armed there.
\<close>

theorem at_most_one_timer_armed:
  "alarm_inv (AlarmState_init h l ra ca) \<and>
   (alarm_inv s \<longrightarrow> alarm_inv (fst (update s x ts))) \<and>
   alarm_inv (fst (feed (AlarmState_init h l ra ca) xs)) \<and>
   (high_since (fst (feed (AlarmState_init h l ra ca) xs)) = None \<or>
    low_since (fst (feed (AlarmState_init h l ra ca) xs)) = None)"
proof -
  have i: "alarm_inv (AlarmState_init h l ra ca)"
    by (simp add: alarm_inv_def AlarmState_init_def)
  have f: "alarm_inv (fst (feed (AlarmState_init h l ra ca) xs))"
    using i by (rule feed_inv)
  then have "high_since (fst (feed (AlarmState_init h l ra ca) xs)) = None \<or>
    low_since (fst (feed (AlarmState_init h l ra ca) xs)) = None"
    by (auto simp add: alarm_inv_def)
  then show ?thesis using i f update_inv by blast
qed

text \<open>
  C10 at the call that raises the alarm (the high timer is dropped as the alarm becomes
  active) and at a run of three samples that ends with the low timer armed.
\<close>

theorem at_most_one_timer_armed_witness:
  "alarm_inv (AlarmState_init 60 58 5 3) \<and>
   alarm_inv ((AlarmState_init 60 58 5 3)\<lparr>high_since := Some 0\<rparr>) \<and>
   alarm_inv (fst (update ((AlarmState_init 60 58 5 3)\<lparr>high_since := Some 0\<rparr>) 61 5)) \<and>
   fst (update ((AlarmState_init 60 58 5 3)\<lparr>high_since := Some 0\<rparr>) 61 5) =
     (AlarmState_init 60 58 5 3)\<lparr>active := True\<rparr> \<and>
   alarm_inv (fst (feed (AlarmState_init 60 58 5 3) [(61, 0), (61, 5), (57, 6)])) \<and>
   fst (feed (AlarmState_init 60 58 5 3) [(61, 0), (61, 5), (57, 6)]) =
     (AlarmState_init 60 58 5 3)\<lparr>active := True, low_since := Some 6\<rparr>"
  using at_most_one_timer_armed
      [of 60 58 5 3 "(AlarmState_init 60 58 5 3)\<lparr>high_since := Some 0\<rparr>" 61 5
          "[(61, 0), (61, 5), (57, 6)]"]
  by (simp add: update_def Let_def alarm_inv_def AlarmState_init_def)

section \<open>Properties of the simulator\<close>

lemma py_int_nonneg: "0 \<le> x \<Longrightarrow> 0 \<le> py_int x"
  by (simp add: py_int_def)

lemma py_int_le: "0 \<le> x \<Longrightarrow> x \<le> real_of_int n \<Longrightarrow> py_int x \<le> n"
  by (simp add: py_int_def floor_le_iff)

text \<open>Three tenths of an integer, truncated towards zero, in integer arithmetic.\<close>

lemma py_int_three_tenths:
  "py_int (real_of_int g * 0.3) = sgn g * (3 * \<bar>g\<bar> div 10)"
proof (cases "0 \<le> g")
  case True
  have "real_of_int g * 0.3 = real_of_int (3 * g) / real_of_int 10" by simp
  then have "\<lfloor>real_of_int g * 0.3\<rfloor> = 3 * g div 10"
    by (simp only: floor_divide_of_int_eq)
  moreover have "0 \<le> real_of_int g * 0.3" using True by simp
  ultimately show ?thesis using True by (cases "g = 0") (simp_all add: py_int_def)
next
  case False
  have "real_of_int g * 0.3 = - (real_of_int (3 * \<bar>g\<bar>) / real_of_int 10)" using False by simp
  then have "\<lceil>real_of_int g * 0.3\<rceil> = - (3 * \<bar>g\<bar> div 10)"
    by (simp only: ceiling_minus floor_divide_of_int_eq minus_minus)
  moreover have "\<not> 0 \<le> real_of_int g * 0.3" using False by simp
  ultimately show ?thesis using False by (simp add: py_int_def)
qed

lemma clamp_gap: "(10 < \<bar>max (- 50) (min 50 g)\<bar>) = (10 < \<bar>g :: int\<bar>)"
  by (simp add: max_def min_def abs_if)

lemma clamp_gap_sgn: "10 < \<bar>g :: int\<bar> \<Longrightarrow> sgn (max (- 50) (min 50 g)) = sgn g"
  by (simp add: max_def min_def sgn_if)

lemma clamp_gap_le: "\<bar>max (- 50) (min 50 g)\<bar> \<le> (50 :: int)"
  by (simp add: max_def min_def abs_if)

lemma step_size:
  "10 < \<bar>g :: int\<bar> \<Longrightarrow> \<bar>g\<bar> \<le> 50 \<Longrightarrow> 3 \<le> 3 * \<bar>g\<bar> div 10 \<and> 3 * \<bar>g\<bar> div 10 \<le> 15"
  by linarith

lemma step_length: "length (snd (updater_step i d st)) = length (snd st)"
  by (simp only: updater_step_def Let_def set_reg_def snd_conv length_list_update)

text \<open>What one tick leaves in the registers 2, 4 and 6.\<close>

lemma step_power:
  assumes "length block = HR_LEN"
  shows "get_reg (snd (updater_step i d (t, block))) 2 =
     max 0 (min 5000 (if \<bar>max (- 50) (min 50 (get_reg block 7 - get_reg block 2))\<bar> > 10
        then get_reg block 2 +
             py_int (real_of_int (max (- 50) (min 50 (get_reg block 7 - get_reg block 2))) * 0.3)
        else get_reg block 2 + randint_pw d))"
proof -
  have l: "2 < length block" using assms by (simp add: HR_LEN_def)
  show ?thesis
    unfolding updater_step_def Let_def set_reg_def get_reg_def snd_conv fst_conv
    using l by (simp only: nth_list_update_eq nth_list_update_neq length_list_update)
qed

lemma step_current:
  assumes "length block = HR_LEN"
  shows "\<exists>x. get_reg (snd (updater_step i d (t, block))) 4 = py_int (max 0 (min 2000 x))"
proof -
  have l: "4 < length block" using assms by (simp add: HR_LEN_def)
  show ?thesis
    unfolding updater_step_def Let_def set_reg_def get_reg_def snd_conv fst_conv
    using l by (simp only: nth_list_update_eq nth_list_update_neq length_list_update) blast
qed

lemma step_soc:
  assumes "length block = HR_LEN"
  shows "\<exists>x. get_reg (snd (updater_step i d (t, block))) 6 = py_int (min 100 (max 0 x) * 10)"
proof -
  have l: "6 < length block" using assms by (simp add: HR_LEN_def)
  show ?thesis
    unfolding updater_step_def Let_def set_reg_def get_reg_def snd_conv fst_conv
    using l by (simp only: nth_list_update_eq nth_list_update_neq length_list_update) blast
qed

lemma step_in_bounds:
  assumes "length block = HR_LEN"
  shows "in_bounds (snd (updater_step i d (t, block)))"
proof -
  have p: "0 \<le> get_reg (snd (updater_step i d (t, block))) 2 \<and>
           get_reg (snd (updater_step i d (t, block))) 2 \<le> 5000"
    unfolding step_power [OF assms] by simp
  obtain x where x: "get_reg (snd (updater_step i d (t, block))) 4 = py_int (max 0 (min 2000 x))"
    using step_current [OF assms] by blast
  have c: "0 \<le> get_reg (snd (updater_step i d (t, block))) 4"
    unfolding x by (rule py_int_nonneg) simp
  obtain y where y: "get_reg (snd (updater_step i d (t, block))) 6 = py_int (min 100 (max 0 y) * 10)"
    using step_soc [OF assms] by blast
  have s0: "0 \<le> get_reg (snd (updater_step i d (t, block))) 6"
    unfolding y by (rule py_int_nonneg) simp
  have s1: "get_reg (snd (updater_step i d (t, block))) 6 \<le> 1000"
    unfolding y by (rule py_int_le) simp_all
  show ?thesis
    using p c s0 s1 by (simp add: in_bounds_def)
qed

lemma loop_in_bounds:
  "length (snd st) = HR_LEN \<Longrightarrow> in_bounds (snd st) \<Longrightarrow> in_bounds (snd (updater_loop i ds st))"
proof (induction ds arbitrary: st)
  case Nil
  then show ?case by simp
next
  case (Cons d ds)
  have "length (snd (updater_step i d st)) = HR_LEN"
    using Cons.prems(1) by (simp add: step_length)
  moreover have "in_bounds (snd (updater_step i d st))"
    using step_in_bounds [OF Cons.prems(1), of i d "fst st"] by simp
  ultimately show ?case using Cons.IH by simp
qed

lemma make_context_eq:
  "make_context = [1001, 1, 1200, 2300, 500, 550, 700, 1200, 0, 0, 0, 0, 0, 0, 0, 0]"
  by code_simp

lemma make_context_ok: "length make_context = HR_LEN \<and> in_bounds make_context"
  by (simp add: make_context_eq HR_LEN_def in_bounds_def get_reg_def)

text \<open>
  C8, as stated, fails. With the setpoint at 5000 W and the power at 1200 W the gap is
  3800 W, and 30 percent of it would take the power to 2340 W; the tick takes it to
  1215 W, because \<open>delta\<close> is the gap cut to the range from \<open>-50\<close> to \<open>50\<close>. With the
  setpoint at 1211 W the gap is 11 W, and the tick adds 3 W, the whole watts of 3.3.
\<close>

theorem power_gap_is_cut_to_fifty:
  "get_reg (set_reg make_context 7 5000) 7 - get_reg (set_reg make_context 7 5000) 2 = 3800 \<and>
   get_reg (snd (updater_step 1 zero_draws (0, set_reg make_context 7 5000))) 2 = 1215 \<and>
   real_of_int (get_reg (snd (updater_step 1 zero_draws (0, set_reg make_context 7 5000))) 2) \<noteq>
     max 0 (min 5000 (real_of_int (get_reg (set_reg make_context 7 5000) 2) +
        0.3 * real_of_int (get_reg (set_reg make_context 7 5000) 7 -
                           get_reg (set_reg make_context 7 5000) 2))) \<and>
   get_reg (set_reg make_context 7 1211) 7 - get_reg (set_reg make_context 7 1211) 2 = 11 \<and>
   get_reg (snd (updater_step 1 zero_draws (0, set_reg make_context 7 1211))) 2 = 1203"
  by code_simp

text \<open>
  C8, amended: on a block of \<open>HR_LEN\<close> registers, with \<open>sp\<close> the setpoint, \<open>pw\<close> the
  power before the tick, \<open>g\<close> the gap \<open>sp - pw\<close> cut to the range from \<open>-50\<close> to
  \<open>50\<close>, and \<open>pw'\<close> the power after the tick: if the gap exceeds 10 W in absolute value,
  the power moves towards the setpoint by 30 percent of \<open>g\<close> truncated to whole watts,
  which is between 3 and 15 W; otherwise it changes by the integer drawn, which is between
  \<open>-5\<close> and \<open>5\<close>; in either case the result is cut to the range from 0 to 5000.
\<close>

theorem power_register_step:
  assumes "length block = HR_LEN"
    and "sp = get_reg block 7" and "pw = get_reg block 2"
    and "g = max (- 50) (min 50 (sp - pw))"
    and "pw' = get_reg (snd (updater_step interval d (t, block))) 2"
  shows "(10 < \<bar>sp - pw\<bar> \<longrightarrow>
          pw' = max 0 (min 5000 (pw + sgn g * (3 * \<bar>g\<bar> div 10))) \<and>
          3 \<le> 3 * \<bar>g\<bar> div 10 \<and> 3 * \<bar>g\<bar> div 10 \<le> 15 \<and> sgn g = sgn (sp - pw)) \<and>
       (\<bar>sp - pw\<bar> \<le> 10 \<longrightarrow> pw' = max 0 (min 5000 (pw + randint_pw d))) \<and>
       (draws_ok d \<longrightarrow> \<bar>randint_pw d\<bar> \<le> 5) \<and>
       0 \<le> pw' \<and> pw' \<le> 5000"
proof -
  have eq: "pw' = max 0 (min 5000 (if 10 < \<bar>sp - pw\<bar> then pw + sgn g * (3 * \<bar>g\<bar> div 10)
                                   else pw + randint_pw d))"
    unfolding assms(5) step_power [OF assms(1)] py_int_three_tenths clamp_gap
    by (simp only: assms(2,3,4))
  have big: "3 \<le> 3 * \<bar>g\<bar> div 10 \<and> 3 * \<bar>g\<bar> div 10 \<le> 15 \<and> sgn g = sgn (sp - pw)"
    if far: "10 < \<bar>sp - pw\<bar>"
  proof -
    have "10 < \<bar>g\<bar>" using far unfolding assms(4) by (simp only: clamp_gap)
    moreover have "\<bar>g\<bar> \<le> 50" unfolding assms(4) by (rule clamp_gap_le)
    ultimately have "3 \<le> 3 * \<bar>g\<bar> div 10 \<and> 3 * \<bar>g\<bar> div 10 \<le> 15" by (rule step_size)
    moreover have "sgn g = sgn (sp - pw)" unfolding assms(4) using far by (rule clamp_gap_sgn)
    ultimately show ?thesis by blast
  qed
  have jit: "\<bar>randint_pw d\<bar> \<le> 5" if "draws_ok d"
    using that by (simp add: draws_ok_def abs_le_iff)
  have rng: "0 \<le> pw' \<and> pw' \<le> 5000"
    unfolding eq by simp
  have far: "pw' = max 0 (min 5000 (pw + sgn g * (3 * \<bar>g\<bar> div 10)))" if "10 < \<bar>sp - pw\<bar>"
    unfolding eq using that by simp
  have near: "pw' = max 0 (min 5000 (pw + randint_pw d))" if "\<bar>sp - pw\<bar> \<le> 10"
    unfolding eq using that by simp
  show ?thesis
  proof (intro conjI impI)
    assume a: "10 < \<bar>sp - pw\<bar>"
    show "pw' = max 0 (min 5000 (pw + sgn g * (3 * \<bar>g\<bar> div 10)))" using a by (rule far)
    show "3 \<le> 3 * \<bar>g\<bar> div 10" using big [OF a] by simp
    show "3 * \<bar>g\<bar> div 10 \<le> 15" using big [OF a] by simp
    show "sgn g = sgn (sp - pw)" using big [OF a] by simp
  next
    assume "\<bar>sp - pw\<bar> \<le> 10"
    then show "pw' = max 0 (min 5000 (pw + randint_pw d))" by (rule near)
  next
    assume "draws_ok d"
    then show "\<bar>randint_pw d\<bar> \<le> 5" by (rule jit)
  next
    show "0 \<le> pw'" using rng by (rule conjunct1)
    show "pw' \<le> 5000" using rng by (rule conjunct2)
  qed
qed

text \<open>
  C8, amended, at the initial block with the setpoint raised to 1300 W (a gap of 100 W,
  cut to 50, so a step of 15 W), and at the initial block itself (no gap) with the draw
  \<open>-4\<close>.
\<close>

theorem power_register_step_witness:
  "length (set_reg make_context 7 1300) = HR_LEN \<and>
   (10::int) < \<bar>1300 - 1200\<bar> \<and>
   get_reg (snd (updater_step 1 zero_draws (0, set_reg make_context 7 1300))) 2 = 1215 \<and>
   length make_context = HR_LEN \<and>
   \<bar>1200 - 1200\<bar> \<le> (10::int) \<and>
   draws_ok (zero_draws\<lparr>randint_pw := - 4\<rparr>) \<and>
   get_reg (snd (updater_step 1 (zero_draws\<lparr>randint_pw := - 4\<rparr>) (0, make_context))) 2 = 1196"
proof -
  have l1: "length (set_reg make_context 7 1300) = HR_LEN" by code_simp
  have sp1: "1300 = get_reg (set_reg make_context 7 1300) 7" by code_simp
  have pw1: "1200 = get_reg (set_reg make_context 7 1300) 2" by code_simp
  have g1: "(50::int) = max (- 50) (min 50 (1300 - 1200))" by simp
  have l2: "length make_context = HR_LEN" by code_simp
  have sp2: "1200 = get_reg make_context 7" by code_simp
  have pw2: "1200 = get_reg make_context 2" by code_simp
  have g2: "(0::int) = max (- 50) (min 50 (1200 - 1200))" by simp
  have ok: "draws_ok (zero_draws\<lparr>randint_pw := - 4\<rparr>)"
    by (simp add: draws_ok_def zero_draws_def)
  have r: "randint_pw (zero_draws\<lparr>randint_pw := - 4\<rparr>) = - 4" by simp
  show ?thesis
    using power_register_step [OF l1 sp1 pw1 g1 refl, of 1 zero_draws 0]
      power_register_step [OF l2 sp2 pw2 g2 refl, of 1 "zero_draws\<lparr>randint_pw := - 4\<rparr>" 0]
      l1 l2 ok
    unfolding r by simp
qed

text \<open>
  C9: the block of \<open>make_context\<close> is within the bounds (power from 0 to 5000 W, state
  of charge from 0 to 100 percent, current not negative); one tick on any block of
  \<open>HR_LEN\<close> registers, within the bounds or not, with any draws, valid or not, and at any
  clock, leaves a block within the bounds; so the block is within the bounds after any
  number of ticks from the start, whatever is drawn. The three registers are written
  through \<open>max\<close> and \<open>min\<close> with exact bounds, and rounding is monotonic, so the bounds
  hold for the floats of the source as they do for the reals here.
\<close>

theorem updater_keeps_bounds:
  "in_bounds make_context \<and>
   (length block = HR_LEN \<longrightarrow> in_bounds (snd (updater_step interval d (t, block)))) \<and>
   in_bounds (updater make_context interval ds)"
proof -
  have "in_bounds (snd (updater_loop interval ds (0, make_context)))"
    using make_context_ok by (intro loop_in_bounds) simp_all
  then show ?thesis
    using make_context_ok step_in_bounds by (simp add: updater_def)
qed

text \<open>
  C9 at a block whose power register a client has set to 60000, out of the bounds, which
  one tick brings back, and at two ticks from the start.
\<close>

theorem updater_keeps_bounds_witness:
  "in_bounds make_context \<and>
   length (set_reg make_context 2 60000) = HR_LEN \<and>
   \<not> in_bounds (set_reg make_context 2 60000) \<and>
   in_bounds (snd (updater_step 1 zero_draws (0, set_reg make_context 2 60000))) \<and>
   in_bounds (updater make_context 1 [zero_draws, zero_draws])"
  using updater_keeps_bounds
      [of "set_reg make_context 2 60000" 1 zero_draws 0 "[zero_draws, zero_draws]"]
  by (simp add: make_context_eq HR_LEN_def set_reg_def get_reg_def in_bounds_def)

end
